theory Spec2Isabelle
  imports Main
begin

section \<open>JavaScript values and the sanitizer\<close>

text \<open>
  A property declared \<open>string\<close> in TypeScript holds at run time whatever was assigned to
  it; the route parameter object is indexed with a key that may be absent, which gives
  \<open>undefined\<close>. A template literal turns the value into text.
\<close>

datatype jsval = JUndefined | JString string

fun template_text :: "jsval \<Rightarrow> string" where
  "template_text JUndefined = ''undefined''"
| "template_text (JString s) = s"

text \<open>
  \<open>SafeResourceUrl\<close>: the field is initialised with the plain string \<open>''\<close> and later
  holds the wrapper that \<open>DomSanitizer.bypassSecurityTrustResourceUrl\<close> builds around its
  argument. The sanitizer keeps the argument as it is.
\<close>

datatype SafeResourceUrl = PlainString string | SafeResourceUrlImpl string

definition bypassSecurityTrustResourceUrl :: "string \<Rightarrow> SafeResourceUrl" where
  "bypassSecurityTrustResourceUrl v = SafeResourceUrlImpl v"

fun unwrapSafeValue :: "SafeResourceUrl \<Rightarrow> string" where
  "unwrapSafeValue (PlainString s) = s"
| "unwrapSafeValue (SafeResourceUrlImpl s) = s"

section \<open>GistComponent, the variant with an input property\<close>

text \<open>
  The fields of the class, and the browser's pending \<open>setTimeout\<close> calls (the delay each
  still has to wait). The input variant has no \<open>loading\<close> field.
\<close>

record GistComponent =
  safeUrl :: SafeResourceUrl
  gistId :: jsval
  timeouts :: "nat list"

definition GistComponent_new :: GistComponent where
  "GistComponent_new = \<lparr>safeUrl = PlainString [], gistId = JString [], timeouts = []\<rparr>"

text \<open>The \<open>@Input()\<close> binding: the framework assigns the property.\<close>

definition set_gistId :: "string \<Rightarrow> 'a GistComponent_scheme \<Rightarrow> 'a GistComponent_scheme" where
  "set_gistId v c = c\<lparr>gistId := JString v\<rparr>"

definition GistComponent_ngOnInit :: "GistComponent \<Rightarrow> GistComponent" where
  "GistComponent_ngOnInit c =
     c\<lparr>safeUrl := bypassSecurityTrustResourceUrl
           (''assets/html/gist_'' @ template_text (gistId c) @ ''.html'')\<rparr>"

section \<open>GistComponent, the variant that subscribes to the route\<close>

record RouteGistComponent = GistComponent +
  loading :: bool

type_synonym Params = "string \<rightharpoonup> string"

definition index_params :: "Params \<Rightarrow> string \<Rightarrow> jsval" where
  "index_params params k = (case params k of None \<Rightarrow> JUndefined | Some v \<Rightarrow> JString v)"

text \<open>The callback given to \<open>route.params.subscribe\<close>.\<close>

definition params_callback :: "Params \<Rightarrow> RouteGistComponent \<Rightarrow> RouteGistComponent" where
  "params_callback params c = c\<lparr>gistId := index_params params ''gistId''\<rparr>"

text \<open>
  The field initialisers, then the constructor body. \<open>route.params\<close> replays its current
  value to a new subscriber, so the callback runs once inside the constructor, with the
  parameters of the route being activated.
\<close>

definition RouteGistComponent_new :: "Params \<Rightarrow> RouteGistComponent" where
  "RouteGistComponent_new params =
     params_callback params
       \<lparr>safeUrl = PlainString [], gistId = JString [], timeouts = [], loading = True\<rparr>"

definition RouteGistComponent_ngOnInit :: "RouteGistComponent \<Rightarrow> RouteGistComponent" where
  "RouteGistComponent_ngOnInit c =
     (let c1 = c\<lparr>safeUrl := bypassSecurityTrustResourceUrl
                  (''assets/html/gist_'' @ template_text (gistId c) @ ''.html'')\<rparr>
      in c1\<lparr>timeouts := timeouts c1 @ [1000]\<rparr>)"

text \<open>The callback given to \<open>setTimeout\<close>.\<close>

definition timeout_callback :: "RouteGistComponent \<Rightarrow> RouteGistComponent" where
  "timeout_callback c = c\<lparr>loading := False\<rparr>"

text \<open>
  \<open>d\<close> time units pass: every pending timeout whose delay is over runs its callback and
  leaves the queue, the others have \<open>d\<close> less to wait. A timeout is never rearmed.
\<close>

definition time_passes :: "nat \<Rightarrow> RouteGistComponent \<Rightarrow> RouteGistComponent" where
  "time_passes d c =
     fold (\<lambda>r. timeout_callback) (filter (\<lambda>r. r \<le> d) (timeouts c))
       (c\<lparr>timeouts := map (\<lambda>r. r - d) (filter (\<lambda>r. d < r) (timeouts c))\<rparr>)"

text \<open>What can happen to a live instance: the route emits parameters, or time passes.\<close>

datatype gist_event = ParamsNext Params | TimePasses nat

fun gist_step :: "gist_event \<Rightarrow> RouteGistComponent \<Rightarrow> RouteGistComponent" where
  "gist_step (ParamsNext params) c = params_callback params c"
| "gist_step (TimePasses d) c = time_passes d c"

definition gist_run :: "gist_event list \<Rightarrow> RouteGistComponent \<Rightarrow> RouteGistComponent" where
  "gist_run evs c = fold gist_step evs c"

fun elapsed :: "gist_event list \<Rightarrow> nat" where
  "elapsed [] = 0"
| "elapsed (ParamsNext params # evs) = elapsed evs"
| "elapsed (TimePasses d # evs) = d + elapsed evs"

section \<open>The resize debouncer\<close>

text \<open>
  \<open>debounceTime(dueTime)\<close> of rxjs, as one subscriber of it behaves: it keeps the last
  value received and restarts its delay at every value; when the delay runs out it hands the
  kept value downstream and is idle again. \<open>pending\<close> is the kept value with the time
  still to wait.
\<close>

record Debouncer =
  dueTime :: nat
  pending :: "(int \<times> nat) option"

definition debounceTime :: "nat \<Rightarrow> Debouncer" where
  "debounceTime d = \<lparr>dueTime = d, pending = None\<rparr>"

definition debounce_next :: "int \<Rightarrow> Debouncer \<Rightarrow> Debouncer" where
  "debounce_next v b = b\<lparr>pending := Some (v, dueTime b)\<rparr>"

text \<open>\<open>t\<close> time units pass: the debouncer afterwards, and what it emitted meanwhile.\<close>

definition debounce_elapse :: "nat \<Rightarrow> Debouncer \<Rightarrow> Debouncer \<times> int list" where
  "debounce_elapse t b =
     (case pending b of
        None \<Rightarrow> (b, [])
      | Some (v, r) \<Rightarrow>
          if r \<le> t then (b\<lparr>pending := None\<rparr>, [v])
          else (b\<lparr>pending := Some (v, r - t)\<rparr>, []))"

text \<open>What a debouncer with delay 200 holds right after the input \<open>v\<close>.\<close>

definition armed :: "int \<Rightarrow> Debouncer \<Rightarrow> bool" where
  "armed v b = (dueTime b = 200 \<and> pending b = Some (v, 200))"

text \<open>
  A stream of inputs, each with the time that passed since the one before (for the first
  one, since the subscription): the debouncer after the last input, and its outputs so far.
\<close>

fun debounce_feed :: "(nat \<times> int) list \<Rightarrow> Debouncer \<Rightarrow> Debouncer \<times> int list" where
  "debounce_feed [] b = (b, [])"
| "debounce_feed ((gap, v) # xs) b =
     (let (b1, out1) = debounce_elapse gap b;
          (b2, out2) = debounce_feed xs (debounce_next v b1)
      in (b2, out1 @ out2))"

text \<open>
  Everything \<open>resizeSubject.pipe(debounceTime(200))\<close> emits for the inputs \<open>xs\<close> followed
  by \<open>quiet\<close> time units without input.
\<close>

definition debounced :: "(nat \<times> int) list \<Rightarrow> nat \<Rightarrow> int list" where
  "debounced xs quiet =
     (let (b, out) = debounce_feed xs (debounceTime 200)
      in out @ snd (debounce_elapse quiet b))"

text \<open>
  A burst, in the words of the specification: inputs that follow each other less than 200
  time units apart. A stream made of bursts has at least 200 time units before the first
  input of every burst but the first.
\<close>

definition burst :: "(nat \<times> int) list \<Rightarrow> bool" where
  "burst xs = (xs \<noteq> [] \<and> list_all (\<lambda>(gap, v). gap < 200) (tl xs))"

definition separated :: "(nat \<times> int) list list \<Rightarrow> bool" where
  "separated bs = list_all (\<lambda>xs. 200 \<le> fst (hd xs)) (tl bs)"

text \<open>Every stream of inputs is cut into its bursts at the gaps of 200 time units or more.\<close>

fun bursts_of :: "(nat \<times> int) list \<Rightarrow> (nat \<times> int) list list" where
  "bursts_of [] = []"
| "bursts_of (x # xs) =
     (case bursts_of xs of
        [] \<Rightarrow> [[x]]
      | b # bs \<Rightarrow> if fst (hd b) < 200 then (x # b) # bs else [x] # b # bs)"

section \<open>AppComponent, the shell\<close>

datatype error = ObjectUnsubscribedError

text \<open>
  The fields \<open>sideNavOpened\<close> and \<open>isSmallScreen\<close> of the class, and what its methods
  read and write around them: \<open>window.innerWidth\<close>; of \<open>resizeSubject\<close> its \<open>closed\<close>
  flag; the debounce subscribers that \<open>ngOnInit\<close> created, which the scheduler keeps
  alive with their timers; and the exceptions that left a handler uncaught. The subject
  delivers to every subscriber as long as it is not closed. The constant field \<open>title\<close> and
  the method \<open>decodeURL\<close>, which reads and writes no field, are left out.
\<close>

record AppComponent =
  innerWidth :: int
  sideNavOpened :: bool
  isSmallScreen :: bool
  closed :: bool
  subscribers :: "Debouncer list"
  errors :: "error list"

definition AppComponent_new :: "int \<Rightarrow> AppComponent" where
  "AppComponent_new w =
     \<lparr>innerWidth = w, sideNavOpened = False, isSmallScreen = False, closed = False,
      subscribers = [], errors = []\<rparr>"

text \<open>
  \<open>Subject.next\<close>, \<open>Subject.subscribe\<close> and \<open>Subject.unsubscribe\<close> of rxjs. A closed
  subject throws on \<open>next\<close> and on \<open>subscribe\<close>. \<open>unsubscribe\<close> on the subject closes it
  and drops its list of observers; it does not reach the subscriptions, so a debounce
  subscriber keeps a timer it has started.
\<close>

definition Subject_next :: "int \<Rightarrow> AppComponent \<Rightarrow> AppComponent" where
  "Subject_next v s =
     (if closed s then s\<lparr>errors := errors s @ [ObjectUnsubscribedError]\<rparr>
      else s\<lparr>subscribers := map (debounce_next v) (subscribers s)\<rparr>)"

definition Subject_subscribe :: "Debouncer \<Rightarrow> AppComponent \<Rightarrow> AppComponent" where
  "Subject_subscribe b s =
     (if closed s then s\<lparr>errors := errors s @ [ObjectUnsubscribedError]\<rparr>
      else s\<lparr>subscribers := subscribers s @ [b]\<rparr>)"

definition Subject_unsubscribe :: "AppComponent \<Rightarrow> AppComponent" where
  "Subject_unsubscribe s = s\<lparr>closed := True\<rparr>"

definition onWindowResize :: "AppComponent \<Rightarrow> AppComponent" where
  "onWindowResize s = Subject_next (innerWidth s) s"

text \<open>The function given to \<open>subscribe\<close>; its argument is the debounced value.\<close>

definition resize_callback :: "int \<Rightarrow> AppComponent \<Rightarrow> AppComponent" where
  "resize_callback event s = s\<lparr>isSmallScreen := innerWidth s < 800\<rparr>"

definition AppComponent_ngOnInit :: "AppComponent \<Rightarrow> AppComponent" where
  "AppComponent_ngOnInit s =
     (let s1 = s\<lparr>isSmallScreen := innerWidth s < 800\<rparr>;
          s2 = s1\<lparr>sideNavOpened := \<not> isSmallScreen s1\<rparr>
      in Subject_subscribe (debounceTime 200) s2)"

definition AppComponent_ngOnDestroy :: "AppComponent \<Rightarrow> AppComponent" where
  "AppComponent_ngOnDestroy s = Subject_unsubscribe s"

text \<open>
  Modelled from the spec: the handler of the side navigation's \<open>sidenav_closed\<close> event. It
  is written in the template of the component, which is not among the sources; the
  specification gives it as setting \<open>sideNavOpened\<close> to false.
\<close>

definition sidenav_closed :: "AppComponent \<Rightarrow> AppComponent" where
  "sidenav_closed s = s\<lparr>sideNavOpened := False\<rparr>"

text \<open>
  \<open>t\<close> time units pass: every subscriber whose delay runs out hands its value to the
  callback.
\<close>

definition elapse :: "nat \<Rightarrow> AppComponent \<Rightarrow> AppComponent" where
  "elapse t s =
     (let rs = map (debounce_elapse t) (subscribers s)
      in fold resize_callback (concat (map snd rs)) (s\<lparr>subscribers := map fst rs\<rparr>))"

text \<open>
  What happens to the shell after \<open>ngOnInit\<close>: the viewport takes a new width, the window
  reports a resize, time passes, the side navigation reports that it was closed, the
  component is torn down.
\<close>

datatype shell_event = ViewportWidth int | WindowResize | Elapse nat | SidenavClosed | NgOnDestroy

fun shell_step :: "shell_event \<Rightarrow> AppComponent \<Rightarrow> AppComponent" where
  "shell_step (ViewportWidth w) s = s\<lparr>innerWidth := w\<rparr>"
| "shell_step WindowResize s = onWindowResize s"
| "shell_step (Elapse t) s = elapse t s"
| "shell_step SidenavClosed s = sidenav_closed s"
| "shell_step NgOnDestroy s = AppComponent_ngOnDestroy s"

definition shell_run :: "shell_event list \<Rightarrow> AppComponent \<Rightarrow> AppComponent" where
  "shell_run evs s = fold shell_step evs s"

text \<open>Whether a debounce subscriber hands a value to the callback within \<open>t\<close> time units.\<close>

definition fires :: "nat \<Rightarrow> AppComponent \<Rightarrow> bool" where
  "fires t s = list_ex (\<lambda>b. case pending b of None \<Rightarrow> False | Some (v, r) \<Rightarrow> r \<le> t) (subscribers s)"

text \<open>
  The values that the debounce subscribers hand to the callback within \<open>t\<close> time units, and
  the values the callback is called with in the course of a sequence of events.
\<close>

definition emitted :: "nat \<Rightarrow> AppComponent \<Rightarrow> int list" where
  "emitted t s = concat (map (\<lambda>b. snd (debounce_elapse t b)) (subscribers s))"

fun delivered :: "shell_event list \<Rightarrow> AppComponent \<Rightarrow> int list" where
  "delivered [] s = []"
| "delivered (Elapse t # evs) s = emitted t s @ delivered evs (elapse t s)"
| "delivered (e # evs) s = delivered evs (shell_step e s)"

text \<open>
  A sequence of resize inputs as the shell meets it: before each input time passes, in any
  number of pieces, then the viewport has the width \<open>w\<close> and the window reports the resize,
  which calls \<open>onWindowResize\<close>. \<open>stream_of\<close> is the same sequence as the stream of
  measurements with the time between them.
\<close>

definition resize_events :: "(nat list \<times> int) list \<Rightarrow> shell_event list" where
  "resize_events xs =
     concat (map (\<lambda>(ps, w). map Elapse ps @ [ViewportWidth w, WindowResize]) xs)"

definition stream_of :: "(nat list \<times> int) list \<Rightarrow> (nat \<times> int) list" where
  "stream_of xs = map (\<lambda>(ps, w). (sum_list ps, w)) xs"

text \<open>A debouncer that is idle or still has time to wait.\<close>

definition waiting :: "Debouncer \<Rightarrow> bool" where
  "waiting b = (case pending b of None \<Rightarrow> True | Some (v, r) \<Rightarrow> 0 < r)"

section \<open>The route table\<close>

datatype component = WelcomeComponent | GistComponent





subsection \<open>How the router reads the table\<close>












section \<open>The resolver: locator and loading flag\<close>

lemma gist_run_Nil: "gist_run [] c = c"
  by (simp add: gist_run_def)

lemma gist_run_Cons: "gist_run (e # evs) c = gist_run evs (gist_step e c)"
  by (simp add: gist_run_def)

lemma params_callback_fields:
  "safeUrl (params_callback p c) = safeUrl c"
  "timeouts (params_callback p c) = timeouts c"
  "loading (params_callback p c) = loading c"
  "gistId (params_callback p c) = index_params p ''gistId''"
  by (simp_all add: params_callback_def)

lemma RouteGistComponent_new_fields:
  "safeUrl (RouteGistComponent_new p) = PlainString []"
  "timeouts (RouteGistComponent_new p) = []"
  "loading (RouteGistComponent_new p)"
  "gistId (RouteGistComponent_new p) = index_params p ''gistId''"
  by (simp_all add: RouteGistComponent_new_def params_callback_def)

lemma RouteGistComponent_ngOnInit_fields:
  "safeUrl (RouteGistComponent_ngOnInit c) =
     SafeResourceUrlImpl (''assets/html/gist_'' @ template_text (gistId c) @ ''.html'')"
  "timeouts (RouteGistComponent_ngOnInit c) = timeouts c @ [1000]"
  "loading (RouteGistComponent_ngOnInit c) = loading c"
  "gistId (RouteGistComponent_ngOnInit c) = gistId c"
  by (simp_all add: RouteGistComponent_ngOnInit_def bypassSecurityTrustResourceUrl_def Let_def)

lemma GistComponent_ngOnInit_fields:
  "safeUrl (GistComponent_ngOnInit c) =
     SafeResourceUrlImpl (''assets/html/gist_'' @ template_text (gistId c) @ ''.html'')"
  "timeouts (GistComponent_ngOnInit c) = timeouts c"
  "gistId (GistComponent_ngOnInit c) = gistId c"
  by (simp_all add: GistComponent_ngOnInit_def bypassSecurityTrustResourceUrl_def)

lemma set_gistId_fields:
  "safeUrl (set_gistId v c) = safeUrl c"
  "timeouts (set_gistId v c) = timeouts c"
  "gistId (set_gistId v c) = JString v"
  by (simp_all add: set_gistId_def)

lemma fold_set_gistId_safeUrl: "safeUrl (fold set_gistId vs c) = safeUrl c"
  by (induction vs arbitrary: c) (simp_all add: set_gistId_fields)

lemma fold_timeout_callback_safeUrl: "safeUrl (fold (\<lambda>r. timeout_callback) rs c) = safeUrl c"
  by (induction rs arbitrary: c) (simp_all add: timeout_callback_def)

lemma gist_step_safeUrl: "safeUrl (gist_step e c) = safeUrl c"
  by (cases e) (simp_all add: params_callback_def time_passes_def fold_timeout_callback_safeUrl)

lemma gist_run_safeUrl: "safeUrl (gist_run evs c) = safeUrl c"
  by (induction evs arbitrary: c) (simp_all add: gist_run_Nil gist_run_Cons gist_step_safeUrl)

text \<open>
  C1. For every identifier, resolution stores the trusted wrapper of exactly
  \<open>assets/html/gist_<id>.html\<close>, in the variant with the input property and in the variant
  that reads the route parameter alike; nothing in the identifier is escaped or refused, a
  path-traversal sequence included.
\<close>

theorem resolve_is_template_substitution:
  "safeUrl (GistComponent_ngOnInit (set_gistId ident c)) =
     SafeResourceUrlImpl (''assets/html/gist_'' @ ident @ ''.html'') \<and>
   safeUrl (RouteGistComponent_ngOnInit (RouteGistComponent_new [''gistId'' \<mapsto> ident])) =
     SafeResourceUrlImpl (''assets/html/gist_'' @ ident @ ''.html'') \<and>
   unwrapSafeValue (safeUrl (GistComponent_ngOnInit (set_gistId ''../../index'' GistComponent_new))) =
     ''assets/html/gist_../../index.html'' \<and>
   unwrapSafeValue (safeUrl (GistComponent_ngOnInit (set_gistId ''abc123'' GistComponent_new))) =
     ''assets/html/gist_abc123.html''"
  by (simp add: GistComponent_ngOnInit_fields RouteGistComponent_ngOnInit_fields
      set_gistId_fields RouteGistComponent_new_fields index_params_def)

subsection \<open>The loading flag\<close>

lemma time_passes_idle: "timeouts c = [] \<Longrightarrow> time_passes d c = c"
  by (simp add: time_passes_def)

lemma gist_step_idle:
  "timeouts c = [] \<Longrightarrow> timeouts (gist_step e c) = [] \<and> loading (gist_step e c) = loading c"
  by (cases e) (simp_all add: params_callback_fields time_passes_idle)

lemma gist_run_idle:
  "timeouts c = [] \<Longrightarrow> timeouts (gist_run evs c) = [] \<and> loading (gist_run evs c) = loading c"
proof (induction evs arbitrary: c)
  case Nil
  then show ?case by (simp add: gist_run_Nil)
next
  case (Cons e evs)
  from Cons.prems have "timeouts (gist_step e c) = []" and "loading (gist_step e c) = loading c"
    by (simp_all add: gist_step_idle)
  with Cons.IH [of "gist_step e c"] show ?case by (simp add: gist_run_Cons)
qed

lemma time_passes_one:
  "timeouts c = [r] \<Longrightarrow>
     timeouts (time_passes d c) = (if r \<le> d then [] else [r - d]) \<and>
     loading (time_passes d c) = (loading c \<and> d < r)"
  by (auto simp add: time_passes_def timeout_callback_def)

text \<open>With one timeout pending, the flag is lowered exactly when its delay has passed.\<close>

lemma gist_run_one:
  "timeouts c = [r] \<Longrightarrow> 0 < r \<Longrightarrow> loading (gist_run evs c) = (loading c \<and> elapsed evs < r)"
proof (induction evs arbitrary: c r)
  case Nil
  then show ?case by (simp add: gist_run_Nil)
next
  case (Cons e evs)
  show ?case
  proof (cases e)
    case (ParamsNext p)
    have "timeouts (gist_step e c) = [r]" "loading (gist_step e c) = loading c"
      using Cons.prems ParamsNext by (simp_all add: params_callback_fields)
    with Cons.IH [of "gist_step e c" r] Cons.prems ParamsNext show ?thesis
      by (simp add: gist_run_Cons)
  next
    case (TimePasses d)
    show ?thesis
    proof (cases "r \<le> d")
      case True
      with time_passes_one [OF Cons.prems(1), of d]
      have "timeouts (gist_step e c) = []" "\<not> loading (gist_step e c)"
        using TimePasses by simp_all
      with gist_run_idle [of "gist_step e c" evs] True TimePasses show ?thesis
        by (simp add: gist_run_Cons)
    next
      case False
      with time_passes_one [OF Cons.prems(1), of d]
      have "timeouts (gist_step e c) = [r - d]" "loading (gist_step e c) = loading c"
        using TimePasses by simp_all
      with Cons.IH [of "gist_step e c" "r - d"] False TimePasses show ?thesis
        by (auto simp add: gist_run_Cons)
    qed
  qed
qed

text \<open>
  C2. Whatever the route parameters: the loading flag is true after construction and stays
  true through everything that happens before \<open>ngOnInit\<close>; from \<open>ngOnInit\<close> on, after any
  sequence of parameter emissions and passages of time, it is true exactly as long as less
  than 1000 time units have passed. So it is lowered once, when the timeout expires, and is
  never raised again.
\<close>

theorem loading_true_until_timeout:
  "loading (RouteGistComponent_new p) \<and>
   loading (gist_run pre (RouteGistComponent_new p)) \<and>
   loading (gist_run post (RouteGistComponent_ngOnInit (gist_run pre (RouteGistComponent_new p))))
     = (elapsed post < 1000)"
proof -
  let ?c = "gist_run pre (RouteGistComponent_new p)"
  have idle: "timeouts ?c = []" and l: "loading ?c"
    using gist_run_idle [of "RouteGistComponent_new p" pre]
    by (simp_all add: RouteGistComponent_new_fields)
  have "timeouts (RouteGistComponent_ngOnInit ?c) = [1000]"
    by (simp add: RouteGistComponent_ngOnInit_fields idle)
  from gist_run_one [OF this, of post] l show ?thesis
    by (simp add: RouteGistComponent_ngOnInit_fields RouteGistComponent_new_fields)
qed

subsection \<open>When the locator is computed\<close>

text \<open>
  C6, as the two classes are written. Both variants resolve once, in \<open>ngOnInit\<close>. In the
  route-subscribing variant a later emission of the route changes \<open>gistId\<close> and leaves the
  locator as it was. In the input variant a later assignment of the input does the same:
  \<open>gistId\<close> takes the new value, the locator stays; its \<open>ngOnInit\<close> starts no timeout.
\<close>

theorem both_variants_resolve_once:
  "safeUrl (gist_run evs (RouteGistComponent_ngOnInit c)) = safeUrl (RouteGistComponent_ngOnInit c) \<and>
   gistId (gist_step (ParamsNext p) (RouteGistComponent_ngOnInit c)) = index_params p ''gistId'' \<and>
   safeUrl (fold set_gistId vs (GistComponent_ngOnInit c')) = safeUrl (GistComponent_ngOnInit c') \<and>
   gistId (set_gistId v (GistComponent_ngOnInit c')) = JString v \<and>
   timeouts (GistComponent_ngOnInit c') = timeouts c'"
  by (simp add: gist_run_safeUrl fold_set_gistId_safeUrl params_callback_fields
      set_gistId_fields GistComponent_ngOnInit_fields)

text \<open>
  C6, as stated, asks of the input variant that the locator follows the input. It does not:
  an instance initialised with \<open>a\<close> whose input then becomes \<open>b\<close> still holds the locator of
  \<open>a\<close>, which is not the one resolution gives for \<open>b\<close>.
\<close>

theorem input_change_does_not_re_resolve:
  "safeUrl (set_gistId ''b'' (GistComponent_ngOnInit (set_gistId ''a'' GistComponent_new))) =
     SafeResourceUrlImpl ''assets/html/gist_a.html'' \<and>
   safeUrl (set_gistId ''b'' (GistComponent_ngOnInit (set_gistId ''a'' GistComponent_new))) \<noteq>
     safeUrl (GistComponent_ngOnInit (set_gistId ''b'' GistComponent_new))"
  by (simp add: set_gistId_fields GistComponent_ngOnInit_fields)

text \<open>
  C8. In both variants the locator is the empty string from construction until \<open>ngOnInit\<close>
  runs, whatever is assigned to the identifier meanwhile; after \<open>ngOnInit\<close> the path it
  wraps is not empty, for every identifier and from then on.
\<close>

theorem locator_placeholder_then_nonempty:
  "safeUrl (fold set_gistId vs GistComponent_new) = PlainString [] \<and>
   safeUrl (gist_run pre (RouteGistComponent_new p)) = PlainString [] \<and>
   unwrapSafeValue (safeUrl (fold set_gistId vs' (GistComponent_ngOnInit c))) \<noteq> [] \<and>
   unwrapSafeValue (safeUrl (gist_run post (RouteGistComponent_ngOnInit c'))) \<noteq> [] \<and>
   unwrapSafeValue (safeUrl (GistComponent_ngOnInit (set_gistId [] GistComponent_new))) =
     ''assets/html/gist_.html''"
  by (simp add: fold_set_gistId_safeUrl gist_run_safeUrl GistComponent_new_def
      RouteGistComponent_new_fields GistComponent_ngOnInit_fields
      RouteGistComponent_ngOnInit_fields set_gistId_fields)

section \<open>The debouncer on a stream of inputs\<close>

lemma debounce_elapse_idle: "pending b = None \<Longrightarrow> debounce_elapse t b = (b, [])"
  by (simp add: debounce_elapse_def)

lemma debounce_elapse_early:
  "pending b = Some (v, r) \<Longrightarrow> t < r \<Longrightarrow>
     debounce_elapse t b = (b\<lparr>pending := Some (v, r - t)\<rparr>, [])"
  by (simp add: debounce_elapse_def)

lemma debounce_elapse_due:
  "pending b = Some (v, r) \<Longrightarrow> r \<le> t \<Longrightarrow> debounce_elapse t b = (b\<lparr>pending := None\<rparr>, [v])"
  by (simp add: debounce_elapse_def)

lemma armed_next: "dueTime b = 200 \<Longrightarrow> armed v (debounce_next v b)"
  by (simp add: armed_def debounce_next_def)

lemma last_value_Cons: "last (w # map snd ys) = snd (last ((gap, w) # ys))"
  by (induction ys arbitrary: w) simp_all

text \<open>Inputs less than 200 apart only replace the value that waits.\<close>

lemma feed_inside_burst:
  "armed v b \<Longrightarrow> list_all (\<lambda>(gap, w). gap < 200) xs \<Longrightarrow>
     armed (last (v # map snd xs)) (fst (debounce_feed xs b)) \<and> snd (debounce_feed xs b) = []"
proof (induction xs arbitrary: v b)
  case Nil
  then show ?case by simp
next
  case (Cons x xs)
  obtain gap w where x: "x = (gap, w)" by (cases x)
  from Cons.prems x have gap: "gap < 200" and rest: "list_all (\<lambda>(gap, w). gap < 200) xs"
    by simp_all
  from Cons.prems(1) have p: "pending b = Some (v, 200)" and d: "dueTime b = 200"
    by (simp_all add: armed_def)
  have e: "debounce_elapse gap b = (b\<lparr>pending := Some (v, 200 - gap)\<rparr>, [])"
    using debounce_elapse_early [OF p gap] .
  have a: "armed w (debounce_next w (b\<lparr>pending := Some (v, 200 - gap)\<rparr>))"
    by (rule armed_next) (simp add: d)
  from Cons.IH [OF a rest] show ?case
    by (simp add: x e split_def)
qed

lemma feed_burst_idle:
  assumes "burst xs" and "dueTime b = 200" and "pending b = None"
  shows "armed (snd (last xs)) (fst (debounce_feed xs b)) \<and> snd (debounce_feed xs b) = []"
proof -
  from assms(1) obtain gap w ys where xs: "xs = (gap, w) # ys"
    and ys: "list_all (\<lambda>(gap, w). gap < 200) ys"
    by (cases xs) (auto simp add: burst_def)
  have a: "armed w (debounce_next w b)" by (rule armed_next) (rule assms(2))
  from feed_inside_burst [OF a ys] show ?thesis
    unfolding last_value_Cons [of w ys gap]
    by (simp add: xs debounce_elapse_idle [OF assms(3)] split_def del: last.simps)
qed

text \<open>A burst that starts 200 or more after the last input first lets that input out.\<close>

lemma feed_burst_after_quiet:
  assumes "burst xs" and "200 \<le> fst (hd xs)" and "armed v b"
  shows "armed (snd (last xs)) (fst (debounce_feed xs b)) \<and> snd (debounce_feed xs b) = [v]"
proof -
  from assms(1,2) obtain gap w ys where xs: "xs = (gap, w) # ys" and gap: "200 \<le> gap"
    and ys: "list_all (\<lambda>(gap, w). gap < 200) ys"
    by (cases xs) (auto simp add: burst_def)
  from assms(3) have p: "pending b = Some (v, 200)" and d: "dueTime b = 200"
    by (simp_all add: armed_def)
  have e: "debounce_elapse gap b = (b\<lparr>pending := None\<rparr>, [v])"
    using debounce_elapse_due [OF p gap] .
  have a: "armed w (debounce_next w (b\<lparr>pending := None\<rparr>))"
    by (rule armed_next) (simp add: d)
  from feed_inside_burst [OF a ys] show ?thesis
    unfolding last_value_Cons [of w ys gap]
    by (simp add: xs e split_def del: last.simps)
qed

lemma debounce_feed_append:
  "debounce_feed (xs @ ys) b =
     (fst (debounce_feed ys (fst (debounce_feed xs b))),
      snd (debounce_feed xs b) @ snd (debounce_feed ys (fst (debounce_feed xs b))))"
proof (induction xs arbitrary: b)
  case Nil
  show ?case by simp
next
  case (Cons x xs)
  obtain gap v where x: "x = (gap, v)" by (cases x)
  show ?case by (simp add: x split_def Let_def Cons.IH)
qed

lemma feed_bursts_armed:
  "armed v b \<Longrightarrow> list_all burst bs \<Longrightarrow> list_all (\<lambda>xs. 200 \<le> fst (hd xs)) bs \<Longrightarrow>
     armed (last (v # map (\<lambda>xs. snd (last xs)) bs)) (fst (debounce_feed (concat bs) b)) \<and>
     snd (debounce_feed (concat bs) b) = butlast (v # map (\<lambda>xs. snd (last xs)) bs)"
proof (induction bs arbitrary: v b)
  case Nil
  then show ?case by simp
next
  case (Cons xs bs)
  from Cons.prems have b1: "burst xs" and q: "200 \<le> fst (hd xs)"
    and rest: "list_all burst bs" "list_all (\<lambda>xs. 200 \<le> fst (hd xs)) bs"
    by simp_all
  from feed_burst_after_quiet [OF b1 q Cons.prems(1)]
  have a: "armed (snd (last xs)) (fst (debounce_feed xs b))"
    and o: "snd (debounce_feed xs b) = [v]" by simp_all
  from Cons.IH [OF a rest] show ?case
    by (simp add: debounce_feed_append o)
qed

text \<open>
  A stream given as its bursts: each burst but the last has let its last input out, and the
  last burst has done so once 200 time units have passed after it.
\<close>

lemma debounce_bursts:
  assumes "list_all burst bs" and "separated bs"
  shows "debounced (concat bs) quiet =
           map (\<lambda>xs. snd (last xs)) (if 200 \<le> quiet then bs else butlast bs)"
proof (cases bs)
  case Nil
  then show ?thesis
    by (simp add: debounced_def debounceTime_def debounce_elapse_def)
next
  case (Cons xs rest)
  let ?b0 = "debounceTime 200"
  let ?b1 = "fst (debounce_feed xs ?b0)"
  let ?b2 = "fst (debounce_feed (concat rest) ?b1)"
  let ?lastv = "\<lambda>xs. snd (last xs)"
  from assms Cons have b1: "burst xs" and r1: "list_all burst rest"
    and r2: "list_all (\<lambda>xs. 200 \<le> fst (hd xs)) rest"
    by (simp_all add: separated_def)
  have "dueTime ?b0 = 200" "pending ?b0 = None" by (simp_all add: debounceTime_def)
  from feed_burst_idle [OF b1 this]
  have a1: "armed (?lastv xs) ?b1" and o1: "snd (debounce_feed xs ?b0) = []" by simp_all
  from feed_bursts_armed [OF a1 r1 r2]
  have a2: "armed (last (?lastv xs # map ?lastv rest)) ?b2"
    and o2: "snd (debounce_feed (concat rest) ?b1) = butlast (?lastv xs # map ?lastv rest)"
    by simp_all
  from a2 have p: "pending ?b2 = Some (last (map ?lastv bs), 200)"
    by (simp add: armed_def Cons)
  have feed: "debounce_feed (concat bs) ?b0 = (?b2, butlast (map ?lastv bs))"
    by (simp add: Cons debounce_feed_append o1 o2)
  show ?thesis
  proof (cases "200 \<le> quiet")
    case True
    have "butlast (map ?lastv bs) @ [last (map ?lastv bs)] = map ?lastv bs"
      using Cons by (simp del: butlast.simps last.simps)
    with True show ?thesis
      by (simp add: debounced_def feed debounce_elapse_due [OF p])
  next
    case False
    then have "quiet < 200" by simp
    with False show ?thesis
      by (simp add: debounced_def feed debounce_elapse_early [OF p] map_butlast)
  qed
qed

subsection \<open>Every stream is made of bursts\<close>

lemma AppComponent_ngOnInit_new:
  "AppComponent_ngOnInit (AppComponent_new w) =
     \<lparr>innerWidth = w, sideNavOpened = \<not> w < 800, isSmallScreen = w < 800, closed = False,
      subscribers = [\<lparr>dueTime = 200, pending = None\<rparr>], errors = []\<rparr>"
  by (simp add: AppComponent_ngOnInit_def AppComponent_new_def Subject_subscribe_def
      debounceTime_def Let_def)


lemma concat_bursts_of: "concat (bursts_of xs) = xs"
  by (induction xs) (auto split: list.splits)

lemma burst_Cons: "burst b \<Longrightarrow> fst (hd b) < 200 \<Longrightarrow> burst (x # b)"
  by (cases b) (auto simp add: burst_def)

lemma burst_single: "burst [x]"
  by (simp add: burst_def)

lemma bursts_of_burst: "list_all burst (bursts_of xs)"
  by (induction xs) (auto split: list.splits simp add: burst_Cons burst_single)

lemma bursts_of_separated: "separated (bursts_of xs)"
  by (induction xs) (auto split: list.splits simp add: separated_def)

section \<open>The shell\<close>

lemma shell_run_Nil: "shell_run [] s = s"
  by (simp add: shell_run_def)

lemma shell_run_Cons: "shell_run (e # evs) s = shell_run evs (shell_step e s)"
  by (simp add: shell_run_def)

lemma fold_resize_callback_frame:
  "sideNavOpened (fold resize_callback vs s) = sideNavOpened s"
  "innerWidth (fold resize_callback vs s) = innerWidth s"
  "closed (fold resize_callback vs s) = closed s"
  "subscribers (fold resize_callback vs s) = subscribers s"
  by (induction vs arbitrary: s) (simp_all add: resize_callback_def)

lemma fold_resize_callback_isSmallScreen:
  "isSmallScreen (fold resize_callback vs s) =
     (if vs = [] then isSmallScreen s else innerWidth s < 800)"
proof (induction vs arbitrary: s)
  case Nil
  show ?case by simp
next
  case (Cons v vs)
  have "innerWidth (resize_callback v s) = innerWidth s"
    "isSmallScreen (resize_callback v s) = (innerWidth s < 800)"
    by (simp_all add: resize_callback_def)
  with Cons.IH [of "resize_callback v s"] show ?case by simp
qed

lemma emitted_iff_fires:
  "(concat (map snd (map (debounce_elapse t) bs)) \<noteq> []) =
     list_ex (\<lambda>b. case pending b of None \<Rightarrow> False | Some (v, r) \<Rightarrow> r \<le> t) bs"
  by (induction bs) (auto simp add: debounce_elapse_def split: option.splits)

lemma elapse_isSmallScreen:
  "isSmallScreen (elapse t s) = (if fires t s then innerWidth s < 800 else isSmallScreen s)"
proof -
  let ?vs = "concat (map snd (map (debounce_elapse t) (subscribers s)))"
  have a: "(?vs \<noteq> []) = fires t s"
    unfolding fires_def by (rule emitted_iff_fires)
  have "isSmallScreen (elapse t s) = (if ?vs = [] then isSmallScreen s else innerWidth s < 800)"
    unfolding elapse_def Let_def fold_resize_callback_isSmallScreen by simp
  with a show ?thesis by (cases "fires t s") auto
qed

lemma elapse_frame:
  "sideNavOpened (elapse t s) = sideNavOpened s"
  "innerWidth (elapse t s) = innerWidth s"
  "closed (elapse t s) = closed s"
  by (simp_all add: elapse_def Let_def fold_resize_callback_frame)

lemma onWindowResize_frame:
  "sideNavOpened (onWindowResize s) = sideNavOpened s"
  "isSmallScreen (onWindowResize s) = isSmallScreen s"
  "innerWidth (onWindowResize s) = innerWidth s"
  "closed (onWindowResize s) = closed s"
  by (simp_all add: onWindowResize_def Subject_next_def)

lemma shell_step_sideNavOpened:
  "sideNavOpened (shell_step e s) = (sideNavOpened s \<and> e \<noteq> SidenavClosed)"
  by (cases e)
    (simp_all add: onWindowResize_frame elapse_frame sidenav_closed_def
      AppComponent_ngOnDestroy_def Subject_unsubscribe_def)

lemma shell_run_sideNavOpened:
  "sideNavOpened (shell_run evs s) = (sideNavOpened s \<and> SidenavClosed \<notin> set evs)"
  by (induction evs arbitrary: s)
    (auto simp add: shell_run_Nil shell_run_Cons shell_step_sideNavOpened)

text \<open>
  After \<open>ngOnInit\<close>: the viewport takes the width \<open>w1\<close>, the window reports the resize, the
  viewport moves on to \<open>w2\<close> unreported, and the debounce delay runs out.
\<close>

lemma resize_then_wait:
  "shell_run (ViewportWidth w1 # WindowResize # ViewportWidth w2 # Elapse (200 + t) # evs)
       (AppComponent_ngOnInit (AppComponent_new w0)) =
     shell_run evs
       \<lparr>innerWidth = w2, sideNavOpened = \<not> w0 < 800, isSmallScreen = w2 < 800, closed = False,
        subscribers = [\<lparr>dueTime = 200, pending = None\<rparr>], errors = []\<rparr>"
  by (simp add: shell_run_Cons AppComponent_ngOnInit_new onWindowResize_def Subject_next_def
      debounce_next_def elapse_def debounce_elapse_def resize_callback_def)

lemma resize_then_wait_same:
  "shell_run (ViewportWidth w1 # WindowResize # Elapse (200 + t) # evs)
       (AppComponent_ngOnInit (AppComponent_new w0)) =
     shell_run evs
       \<lparr>innerWidth = w1, sideNavOpened = \<not> w0 < 800, isSmallScreen = w1 < 800, closed = False,
        subscribers = [\<lparr>dueTime = 200, pending = None\<rparr>], errors = []\<rparr>"
  by (simp add: shell_run_Cons AppComponent_ngOnInit_new onWindowResize_def Subject_next_def
      debounce_next_def elapse_def debounce_elapse_def resize_callback_def)

lemma resize_measured:
  "shell_run [ViewportWidth w1, WindowResize] (AppComponent_ngOnInit (AppComponent_new w0)) =
     \<lparr>innerWidth = w1, sideNavOpened = \<not> w0 < 800, isSmallScreen = w0 < 800, closed = False,
      subscribers = [\<lparr>dueTime = 200, pending = Some (w1, 200)\<rparr>], errors = []\<rparr>"
  by (simp add: shell_run_Cons shell_run_Nil AppComponent_ngOnInit_new onWindowResize_def
      Subject_next_def debounce_next_def)

text \<open>
  C4. Created with the viewport width \<open>w\<close>, the shell has \<open>isSmallScreen = (w < 800)\<close> and
  \<open>sideNavOpened\<close> the negation of it; so 700 gives a small screen with the side navigation
  closed, and 1200 a large one with it open.
\<close>

theorem shell_initial_state:
  "isSmallScreen (AppComponent_ngOnInit (AppComponent_new w)) = (w < 800) \<and>
   sideNavOpened (AppComponent_ngOnInit (AppComponent_new w)) =
     (\<not> isSmallScreen (AppComponent_ngOnInit (AppComponent_new w))) \<and>
   isSmallScreen (AppComponent_ngOnInit (AppComponent_new 700)) \<and>
   \<not> sideNavOpened (AppComponent_ngOnInit (AppComponent_new 700)) \<and>
   \<not> isSmallScreen (AppComponent_ngOnInit (AppComponent_new 1200)) \<and>
   sideNavOpened (AppComponent_ngOnInit (AppComponent_new 1200))"
  by (simp add: AppComponent_ngOnInit_new)

text \<open>
  C5. The debounced callback writes \<open>isSmallScreen\<close> only. After any sequence of events
  \<open>sideNavOpened\<close> is what it was, unless the close signal was among them, and then it is
  false: no resize, passage of time or teardown changes it. Started at width 1200 and
  resized to 500, the shell has a small screen once the delay has run out, with the side
  navigation still open until the close signal.
\<close>

theorem resize_leaves_sideNavOpened:
  "sideNavOpened (resize_callback v s) = sideNavOpened s \<and>
   sideNavOpened (shell_run evs s) = (sideNavOpened s \<and> SidenavClosed \<notin> set evs) \<and>
   isSmallScreen (shell_run [ViewportWidth 500, WindowResize, Elapse 200]
      (AppComponent_ngOnInit (AppComponent_new 1200))) \<and>
   sideNavOpened (shell_run [ViewportWidth 500, WindowResize, Elapse 200]
      (AppComponent_ngOnInit (AppComponent_new 1200))) \<and>
   \<not> sideNavOpened (shell_run [ViewportWidth 500, WindowResize, Elapse 200, SidenavClosed]
      (AppComponent_ngOnInit (AppComponent_new 1200)))"
  using resize_then_wait_same [of 500 0 "[]" 1200]
    resize_then_wait_same [of 500 0 "[SidenavClosed]" 1200]
  by (simp add: shell_run_sideNavOpened shell_run_Nil resize_callback_def)

text \<open>
  C9. When a debounce delay runs out, the callback drops the value it is handed and reads the
  width of the viewport at that moment: after any passage of time \<open>isSmallScreen\<close> is
  \<open>innerWidth < 800\<close> if a subscriber fired and unchanged otherwise. The value handed over
  is the width measured at the last resize event; the flag agrees with that measurement
  when the width has stayed the same since, and follows the newer width when it has not.
\<close>

theorem callback_reads_live_width:
  "isSmallScreen (elapse t s) = (if fires t s then innerWidth s < 800 else isSmallScreen s) \<and>
   isSmallScreen (resize_callback v s) = (innerWidth s < 800) \<and>
   map pending (subscribers (shell_run [ViewportWidth w1, WindowResize]
      (AppComponent_ngOnInit (AppComponent_new w0)))) = [Some (w1, 200)] \<and>
   isSmallScreen (shell_run [ViewportWidth w1, WindowResize, Elapse (200 + d)]
      (AppComponent_ngOnInit (AppComponent_new w0))) = (w1 < 800) \<and>
   isSmallScreen (shell_run [ViewportWidth w1, WindowResize, ViewportWidth w2, Elapse (200 + d)]
      (AppComponent_ngOnInit (AppComponent_new w0))) = (w2 < 800)"
  by (simp add: elapse_isSmallScreen resize_measured resize_then_wait resize_then_wait_same
      shell_run_Nil resize_callback_def)

text \<open>
  C7, on the code. \<open>ngOnDestroy\<close> closes the subject: a resize reported afterwards raises
  \<open>ObjectUnsubscribedError\<close> and reaches no subscriber. The subscription made in \<open>ngOnInit\<close>
  is not released, so a delay that was running at teardown still runs out and the callback
  still writes \<open>isSmallScreen\<close>, as it would have without the teardown: with the shell
  started at width 1200 and a resize to 500 reported 100 time units before the teardown,
  \<open>isSmallScreen\<close> is false at the teardown and becomes true 100 time units after it.
\<close>

theorem pending_debounce_fires_after_destroy:
  "subscribers (onWindowResize (AppComponent_ngOnDestroy s)) = subscribers s \<and>
   errors (onWindowResize (AppComponent_ngOnDestroy s)) = errors s @ [ObjectUnsubscribedError] \<and>
   isSmallScreen (elapse t (AppComponent_ngOnDestroy s)) =
     (if fires t s then innerWidth s < 800 else isSmallScreen s) \<and>
   \<not> isSmallScreen (shell_run [ViewportWidth 500, WindowResize, Elapse 100, NgOnDestroy]
        (AppComponent_ngOnInit (AppComponent_new 1200))) \<and>
   isSmallScreen (shell_run [ViewportWidth 500, WindowResize, Elapse 100, NgOnDestroy, Elapse 100]
        (AppComponent_ngOnInit (AppComponent_new 1200)))"
proof -
  have "isSmallScreen (elapse t (AppComponent_ngOnDestroy s)) =
          (if fires t s then innerWidth s < 800 else isSmallScreen s)"
    by (simp add: elapse_isSmallScreen fires_def AppComponent_ngOnDestroy_def
        Subject_unsubscribe_def)
  then show ?thesis
    by (simp add: shell_run_Cons shell_run_Nil AppComponent_ngOnInit_new onWindowResize_def
        Subject_next_def debounce_next_def elapse_def debounce_elapse_def resize_callback_def
        AppComponent_ngOnDestroy_def Subject_unsubscribe_def)
qed

subsection \<open>The debouncer inside the shell\<close>

text \<open>When time passes, the callback is called with exactly the emitted values, in order.\<close>

lemma elapse_calls_callback:
  "elapse t s =
     fold resize_callback (emitted t s)
       (s\<lparr>subscribers := map (\<lambda>b. fst (debounce_elapse t b)) (subscribers s)\<rparr>)"
  by (simp add: elapse_def emitted_def Let_def comp_def)

lemma elapse_subscribers:
  "subscribers (elapse t s) = map (\<lambda>b. fst (debounce_elapse t b)) (subscribers s)"
  by (simp add: elapse_calls_callback fold_resize_callback_frame)

lemma delivered_step:
  "delivered (e # evs) s =
     (case e of Elapse t \<Rightarrow> emitted t s | _ \<Rightarrow> []) @ delivered evs (shell_step e s)"
  by (cases e) simp_all

lemma delivered_append:
  "delivered (evs @ evs') s = delivered evs s @ delivered evs' (shell_run evs s)"
proof (induction evs arbitrary: s)
  case Nil
  show ?case by (simp add: shell_run_Nil)
next
  case (Cons e evs)
  have "delivered ((e # evs) @ evs') s =
          (case e of Elapse t \<Rightarrow> emitted t s | _ \<Rightarrow> []) @ delivered (evs @ evs') (shell_step e s)"
    using delivered_step [of e "evs @ evs'" s] by simp
  with Cons.IH [of "shell_step e s"] show ?case
    by (simp add: delivered_step [of e evs s] shell_run_Cons)
qed

lemma shell_run_append: "shell_run (evs @ evs') s = shell_run evs' (shell_run evs s)"
  by (simp add: shell_run_def)

lemma debounce_elapse_waiting: "waiting b \<Longrightarrow> waiting (fst (debounce_elapse t b))"
  by (auto simp add: waiting_def debounce_elapse_def split: option.splits)

lemma debounce_elapse_dueTime: "dueTime (fst (debounce_elapse t b)) = dueTime b"
  by (auto simp add: debounce_elapse_def split: option.splits)

lemma debounce_elapse_zero: "waiting b \<Longrightarrow> debounce_elapse 0 b = (b, [])"
  by (auto simp add: waiting_def debounce_elapse_def split: option.splits)

text \<open>Time that passes in two pieces does to a debouncer what it does in one.\<close>

lemma debounce_elapse_add:
  "debounce_elapse (t1 + t2) b =
     (fst (debounce_elapse t2 (fst (debounce_elapse t1 b))),
      snd (debounce_elapse t1 b) @ snd (debounce_elapse t2 (fst (debounce_elapse t1 b))))"
  by (auto simp add: debounce_elapse_def split: option.splits)

lemma idle_pieces:
  "subscribers s = [b] \<Longrightarrow> waiting b \<Longrightarrow>
     subscribers (shell_run (map Elapse ps) s) = [fst (debounce_elapse (sum_list ps) b)] \<and>
     closed (shell_run (map Elapse ps) s) = closed s \<and>
     delivered (map Elapse ps) s = snd (debounce_elapse (sum_list ps) b)"
proof (induction ps arbitrary: s b)
  case Nil
  then show ?case by (simp add: shell_run_Nil debounce_elapse_zero)
next
  case (Cons p ps)
  let ?b = "fst (debounce_elapse p b)"
  have sub: "subscribers (elapse p s) = [?b]"
    by (simp add: elapse_subscribers Cons.prems(1))
  have w: "waiting ?b" by (rule debounce_elapse_waiting) (rule Cons.prems(2))
  have e: "emitted p s = snd (debounce_elapse p b)"
    by (simp add: emitted_def Cons.prems(1))
  from Cons.IH [OF sub w] show ?case
    by (simp add: shell_run_Cons e debounce_elapse_add [of p "sum_list ps" b] elapse_frame)
qed

lemma resize_step:
  "subscribers s = [b] \<Longrightarrow> \<not> closed s \<Longrightarrow>
     subscribers (shell_run [ViewportWidth w, WindowResize] s) = [debounce_next w b] \<and>
     \<not> closed (shell_run [ViewportWidth w, WindowResize] s) \<and>
     delivered [ViewportWidth w, WindowResize] s = []"
  by (simp add: shell_run_Cons shell_run_Nil onWindowResize_def Subject_next_def)

lemma debounce_next_waiting:
  "dueTime b = 200 \<Longrightarrow> waiting (debounce_next w b) \<and> dueTime (debounce_next w b) = 200"
  by (simp add: waiting_def debounce_next_def)

text \<open>
  The shell with one subscriber, fed resize inputs through \<open>onWindowResize\<close>, keeps in that
  subscriber what \<open>debounce_feed\<close> computes, and its callback receives the same outputs.
\<close>

lemma run_is_feed:
  "subscribers s = [b] \<Longrightarrow> \<not> closed s \<Longrightarrow> dueTime b = 200 \<Longrightarrow> waiting b \<Longrightarrow>
     subscribers (shell_run (resize_events xs) s) = [fst (debounce_feed (stream_of xs) b)] \<and>
     \<not> closed (shell_run (resize_events xs) s) \<and>
     waiting (fst (debounce_feed (stream_of xs) b)) \<and>
     delivered (resize_events xs) s = snd (debounce_feed (stream_of xs) b)"
proof (induction xs arbitrary: s b)
  case Nil
  then show ?case by (simp add: resize_events_def stream_of_def shell_run_Nil)
next
  case (Cons x xs)
  obtain ps w where x: "x = (ps, w)" by (cases x)
  let ?s1 = "shell_run (map Elapse ps) s"
  let ?b1 = "fst (debounce_elapse (sum_list ps) b)"
  let ?s2 = "shell_run [ViewportWidth w, WindowResize] ?s1"
  let ?b2 = "debounce_next w ?b1"
  from idle_pieces [OF Cons.prems(1) Cons.prems(4), of ps] Cons.prems(2)
  have s1: "subscribers ?s1 = [?b1]" and c1: "\<not> closed ?s1"
    and d1: "delivered (map Elapse ps) s = snd (debounce_elapse (sum_list ps) b)"
    by simp_all
  from resize_step [OF s1 c1, of w]
  have s2: "subscribers ?s2 = [?b2]" and c2: "\<not> closed ?s2"
    and d2: "delivered [ViewportWidth w, WindowResize] ?s1 = []"
    by simp_all
  have due: "dueTime ?b1 = 200" by (simp add: debounce_elapse_dueTime Cons.prems(3))
  from debounce_next_waiting [OF due, of w] have w2: "waiting ?b2" and due2: "dueTime ?b2 = 200"
    by simp_all
  have ev: "resize_events (x # xs) =
              map Elapse ps @ [ViewportWidth w, WindowResize] @ resize_events xs"
    by (simp add: resize_events_def x)
  have st: "stream_of (x # xs) = (sum_list ps, w) # stream_of xs"
    by (simp add: stream_of_def x)
  have rn: "shell_run (resize_events (x # xs)) s = shell_run (resize_events xs) ?s2"
    by (simp only: ev shell_run_append)
  have dl: "delivered (resize_events (x # xs)) s =
              snd (debounce_elapse (sum_list ps) b) @ delivered (resize_events xs) ?s2"
    by (simp only: ev delivered_append d1 d2 append_Nil)
  from Cons.IH [OF s2 c2 due2 w2] show ?case
    by (simp add: rn dl st split_def Let_def)
qed

lemma delivered_is_debounced:
  "delivered (resize_events xs @ map Elapse qs) (AppComponent_ngOnInit (AppComponent_new w)) =
     debounced (stream_of xs) (sum_list qs)"
proof -
  let ?s = "AppComponent_ngOnInit (AppComponent_new w)"
  let ?b = "debounceTime 200"
  have a: "subscribers ?s = [?b]" "\<not> closed ?s" "dueTime ?b = 200" "waiting ?b"
    by (simp_all add: AppComponent_ngOnInit_new debounceTime_def waiting_def)
  from run_is_feed [OF a, of xs]
  have s: "subscribers (shell_run (resize_events xs) ?s) = [fst (debounce_feed (stream_of xs) ?b)]"
    and w: "waiting (fst (debounce_feed (stream_of xs) ?b))"
    and d: "delivered (resize_events xs) ?s = snd (debounce_feed (stream_of xs) ?b)"
    by simp_all
  from idle_pieces [OF s w, of qs] show ?thesis
    by (simp add: delivered_append d debounced_def split_def Let_def)
qed

lemma delivered_example:
  "delivered [ViewportWidth 1000, WindowResize, Elapse 50, ViewportWidth 900, WindowResize,
      Elapse 199, ViewportWidth 700, WindowResize, Elapse 120, Elapse 80,
      ViewportWidth 1200, WindowResize, Elapse 10, ViewportWidth 1300, WindowResize, Elapse q]
     (AppComponent_ngOnInit (AppComponent_new 1000)) = (if 200 \<le> q then [700, 1300] else [700])"
  by (simp add: AppComponent_ngOnInit_new emitted_def elapse_def onWindowResize_def
      Subject_next_def debounce_next_def debounce_elapse_def resize_callback_def)

text \<open>
  C3. The shell after \<open>ngOnInit\<close> receives any finite sequence of resize inputs, each pushed
  by \<open>onWindowResize\<close> into the subject, with any passage of time between them and after
  the last. The stream of the measured widths is the concatenation of its bursts (inputs
  less than 200 apart, with 200 or more between two bursts). The values that reach the
  subscriber's callback are the last input of every burst, in order, the last burst
  included if and only if 200 time units or more have passed after it. So nothing comes out
  while inputs keep arriving less than 200 apart or before 200 have passed after the last
  one, and every burst gives exactly one output, its last input. When time passes, the
  callback is called with exactly the emitted values.
\<close>

theorem debounce_one_output_per_burst:
  "subscribers (AppComponent_ngOnInit (AppComponent_new w)) = [debounceTime 200] \<and>
   elapse t s =
     fold resize_callback (emitted t s)
       (s\<lparr>subscribers := map (\<lambda>b. fst (debounce_elapse t b)) (subscribers s)\<rparr>) \<and>
   delivered (resize_events xs @ map Elapse qs) (AppComponent_ngOnInit (AppComponent_new w)) =
     map (\<lambda>b. snd (last b))
       (if 200 \<le> sum_list qs then bursts_of (stream_of xs) else butlast (bursts_of (stream_of xs))) \<and>
   concat (bursts_of (stream_of xs)) = stream_of xs \<and>
   list_all burst (bursts_of (stream_of xs)) \<and> separated (bursts_of (stream_of xs)) \<and>
   delivered [ViewportWidth 1000, WindowResize, Elapse 50, ViewportWidth 900, WindowResize,
      Elapse 199, ViewportWidth 700, WindowResize, Elapse 120, Elapse 80,
      ViewportWidth 1200, WindowResize, Elapse 10, ViewportWidth 1300, WindowResize, Elapse 199]
     (AppComponent_ngOnInit (AppComponent_new 1000)) = [700] \<and>
   delivered [ViewportWidth 1000, WindowResize, Elapse 50, ViewportWidth 900, WindowResize,
      Elapse 199, ViewportWidth 700, WindowResize, Elapse 120, Elapse 80,
      ViewportWidth 1200, WindowResize, Elapse 10, ViewportWidth 1300, WindowResize, Elapse 200]
     (AppComponent_ngOnInit (AppComponent_new 1000)) = [700, 1300]"
proof -
  have "delivered (resize_events xs @ map Elapse qs) (AppComponent_ngOnInit (AppComponent_new w)) =
          map (\<lambda>b. snd (last b))
            (if 200 \<le> sum_list qs then bursts_of (stream_of xs)
             else butlast (bursts_of (stream_of xs)))"
    using debounce_bursts [OF bursts_of_burst bursts_of_separated, of "stream_of xs" "sum_list qs"]
    by (simp only: delivered_is_debounced concat_bursts_of)
  then show ?thesis
    using elapse_calls_callback [of t s] delivered_example [of 199] delivered_example [of 200]
    by (simp add: concat_bursts_of bursts_of_burst bursts_of_separated AppComponent_ngOnInit_new
        debounceTime_def del: delivered.simps)
qed

section \<open>Which identifiers the router hands to the resolver\<close>










end
